theory Spec2Isabelle
  imports Complex_Main "HOL-Library.List_Lexorder" "HOL-Library.Char_ord"
begin

section \<open>Python values and exceptions\<close>

text \<open>
  The classes of the chat library and of the command framework that the two source
  files name. An exception of the library is given by the classes it is an instance
  of (its own class first, then its bases), which is what \<^verbatim>\<open>isinstance\<close> reads.
\<close>

datatype exc_class =
    DiscordException | HTTPException | Forbidden | NotFound | ClientOSError
  | CommandError | CommandNotFound | InvokedMetaCommand
  | MissingRequiredArgumentString | MissingRequiredArgument
  | UnexpectedQuoteError | InvalidEndOfQuotedStringError | ExpectedClosingQuoteError
  | CommandOnCooldown | NSFWChannelRequired | DisabledCommand
  | MissingAnyRole | BotMissingAnyRole | MissingRole | BotMissingRole
  | MissingPermissions | BotMissingPermissions
  | NoPrivateMessage | PrivateMessageOnly | NotOwner
  | BadArgument | BadUnionArgument | TooManyArguments
  | OtherClass string

datatype pyerror =
    TypeError | AttributeError | UnboundLocalError | NameError | KeyError
  | ValueError | IndexError | ZeroDivisionError | StopIteration | StopAsyncIteration
  | LibError "exc_class list"

text \<open>\<^verbatim>\<open>isinstance(e, (c1, c2, ...))\<close> for the library's classes.\<close>

fun isinstance :: "pyerror \<Rightarrow> exc_class list \<Rightarrow> bool" where
  "isinstance (LibError cs) tys = list_ex (\<lambda>c. List.member tys c) cs"
| "isinstance _ tys = False"

text \<open>
  The fields \<^verbatim>\<open>current_page\<close> and \<^verbatim>\<open>max_pages\<close> hold \<^verbatim>\<open>None\<close>, an integer or
  the string \<^verbatim>\<open>'?'\<close>; the comparisons and the arithmetic of the source are Python's:
  defined between two integers (and between two strings), a \<^verbatim>\<open>TypeError\<close> otherwise.
\<close>

datatype pyval = PyNone | PyInt int | PyStr string

fun py_gt :: "pyval \<Rightarrow> pyval \<Rightarrow> pyerror + bool" where
  "py_gt (PyInt a) (PyInt b) = Inr (a > b)"
| "py_gt (PyStr a) (PyStr b) = Inr (a > b)"
| "py_gt _ _ = Inl TypeError"

fun py_ge :: "pyval \<Rightarrow> pyval \<Rightarrow> pyerror + bool" where
  "py_ge (PyInt a) (PyInt b) = Inr (a \<ge> b)"
| "py_ge (PyStr a) (PyStr b) = Inr (a \<ge> b)"
| "py_ge _ _ = Inl TypeError"

fun py_lt :: "pyval \<Rightarrow> pyval \<Rightarrow> pyerror + bool" where
  "py_lt (PyInt a) (PyInt b) = Inr (a < b)"
| "py_lt (PyStr a) (PyStr b) = Inr (a < b)"
| "py_lt _ _ = Inl TypeError"

fun py_add :: "pyval \<Rightarrow> pyval \<Rightarrow> pyerror + pyval" where
  "py_add (PyInt a) (PyInt b) = Inr (PyInt (a + b))"
| "py_add (PyStr a) (PyStr b) = Inr (PyStr (a @ b))"
| "py_add _ _ = Inl TypeError"

fun py_sub :: "pyval \<Rightarrow> pyval \<Rightarrow> pyerror + pyval" where
  "py_sub (PyInt a) (PyInt b) = Inr (PyInt (a - b))"
| "py_sub _ _ = Inl TypeError"

definition py_divmod :: "int \<Rightarrow> int \<Rightarrow> pyerror + int \<times> int" where
  "py_divmod a b = (if b = 0 then Inl ZeroDivisionError else Inr (a div b, a mod b))"

text \<open>
  \<^verbatim>\<open>xs[a:b]\<close>: a negative bound counts from the end, and both bounds are cut to
  \<^verbatim>\<open>[0, len(xs)]\<close>; a slice never raises.
\<close>

definition slice_bound :: "int \<Rightarrow> int \<Rightarrow> int" where
  "slice_bound L i = (if i < 0 then max (i + L) 0 else min i L)"

definition py_slice :: "'a list \<Rightarrow> int \<Rightarrow> int \<Rightarrow> 'a list" where
  "py_slice xs a b =
     (let L = int (length xs); s = slice_bound L a; e = slice_bound L b
      in take (nat (e - s)) (drop (nat s) xs))"

section \<open>The paginator (cogs/utils/paginator.py)\<close>

text \<open>
  The data of a paginator: a sequence, a generator or an asynchronous generator (each
  given by the batches it has still to yield), or a generator function that was not
  called.
\<close>

datatype 'a source =
    Sequential "'a list"
  | Generator "'a list list"
  | AsyncGenerator "'a list list"
  | GeneratorFunction
  | AsyncGeneratorFunction

fun isasyncgen :: "'a source \<Rightarrow> bool" where
  "isasyncgen (AsyncGenerator _) = True"
| "isasyncgen _ = False"

fun isasyncgenfunction :: "'a source \<Rightarrow> bool" where
  "isasyncgenfunction AsyncGeneratorFunction = True"
| "isasyncgenfunction _ = False"

fun isgenerator :: "'a source \<Rightarrow> bool" where
  "isgenerator (Generator _) = True"
| "isgenerator _ = False"

fun isgeneratorfunction :: "'a source \<Rightarrow> bool" where
  "isgeneratorfunction GeneratorFunction = True"
| "isgeneratorfunction _ = False"

text \<open>
  What the paginator does to its data and to the chat: the log of a call lists these
  in order. \<^verbatim>\<open>Sliced a b\<close> is \<^verbatim>\<open>data[a:b]\<close>, \<^verbatim>\<open>Pulled\<close> one step of a generator.
\<close>

datatype source_op = Sliced int int | Pulled

text \<open>
  The builtin \<^verbatim>\<open>next(x)\<close>: one step of a generator, \<^verbatim>\<open>StopIteration\<close> at its end;
  an asynchronous generator, a function and a list are not iterators.
\<close>

fun py_next :: "'a source \<Rightarrow> (pyerror + 'a list) \<times> 'a source \<times> source_op list" where
  "py_next (Generator (b # bs)) = (Inr b, Generator bs, [Pulled])"
| "py_next (Generator []) = (Inl StopIteration, Generator [], [Pulled])"
| "py_next d = (Inl TypeError, d, [])"

text \<open>
  \<^verbatim>\<open>await x.__anext__()\<close>: one step of an asynchronous generator,
  \<^verbatim>\<open>StopAsyncIteration\<close> at its end; nothing else has the attribute.
\<close>

fun py_anext :: "'a source \<Rightarrow> (pyerror + 'a list) \<times> 'a source \<times> source_op list" where
  "py_anext (AsyncGenerator (b # bs)) = (Inr b, AsyncGenerator bs, [Pulled])"
| "py_anext (AsyncGenerator []) = (Inl StopAsyncIteration, AsyncGenerator [], [Pulled])"
| "py_anext d = (Inl AttributeError, d, [])"

text \<open>\<^verbatim>\<open>data[a:b]\<close>: a slice of a sequence; the other kinds of data cannot be indexed.\<close>

fun py_getslice :: "'a source \<Rightarrow> int \<Rightarrow> int \<Rightarrow> (pyerror + 'a list) \<times> 'a source \<times> source_op list" where
  "py_getslice (Sequential xs) a b = (Inr (py_slice xs a b), Sequential xs, [Sliced a b])"
| "py_getslice d a b = (Inl TypeError, d, [])"

record 'a paginator =
  data :: "'a source"
  per_page :: int
  current_page :: pyval
  page_cache :: "int \<rightharpoonup> 'a list"
  max_pages :: pyval

text \<open>
  \<^verbatim>\<open>__init__\<close>. The formatter is not a field here: a session takes it as an argument.
\<close>

definition data_is_generator :: "'a source \<Rightarrow> bool" where
  "data_is_generator d =
     (isasyncgenfunction d \<or> isasyncgen d \<or> isgeneratorfunction d \<or> isgenerator d)"

fun py_len :: "'a source \<Rightarrow> pyerror + int" where
  "py_len (Sequential xs) = Inr (int (length xs))"
| "py_len _ = Inl TypeError"

definition init :: "'a source \<Rightarrow> int \<Rightarrow> pyerror + 'a paginator" where
  "init d pp =
     (let self = \<lparr>data = d, per_page = pp, current_page = PyNone,
                  page_cache = Map.empty, max_pages = PyStr ''?''\<rparr>
      in if data_is_generator d then Inr self
         else (case py_len d of
                 Inl e \<Rightarrow> Inl e
               | Inr n \<Rightarrow>
                   (case py_divmod n pp of
                      Inl e \<Rightarrow> Inl e
                    | Inr (pages, left_over) \<Rightarrow>
                        Inr (self\<lparr>max_pages :=
                               PyInt (if left_over \<noteq> 0 then pages + 1 else pages)\<rparr>))))"

text \<open>
  \<^verbatim>\<open>get_page\<close>. The branch of an asynchronous generator calls \<^verbatim>\<open>next\<close>, the branch of
  a generator awaits \<^verbatim>\<open>__anext__\<close>, as the source has them. In the handler the local
  \<^verbatim>\<open>v\<close> was never bound (the statement that binds it is the one that raised), so
  \<^verbatim>\<open>return v\<close> raises \<^verbatim>\<open>UnboundLocalError\<close>, after \<^verbatim>\<open>max_pages\<close> was set.
\<close>

definition fetch :: "'a paginator \<Rightarrow> int \<Rightarrow> (pyerror + 'a list) \<times> 'a source \<times> source_op list" where
  "fetch self page_number =
     (if isasyncgenfunction (data self) \<or> isasyncgen (data self) then py_next (data self)
      else if isgeneratorfunction (data self) \<or> isgenerator (data self) then py_anext (data self)
      else py_getslice (data self) (page_number * per_page self)
             ((page_number + 1) * per_page self))"

definition is_stop :: "pyerror \<Rightarrow> bool" where
  "is_stop e = (e = StopIteration \<or> e = StopAsyncIteration)"

definition get_page ::
  "int \<Rightarrow> 'a paginator \<Rightarrow> (pyerror + 'a list) \<times> 'a paginator \<times> source_op list" where
  "get_page page_number self =
     (case page_cache self page_number of
        Some cached \<Rightarrow> (Inr cached, self, [])
      | None \<Rightarrow>
          (case fetch self page_number of
             (Inl e, d, ops) \<Rightarrow>
               (if is_stop e
                then (Inl UnboundLocalError,
                      self\<lparr>data := d, max_pages := PyInt page_number\<rparr>, ops)
                else (Inl e, self\<lparr>data := d\<rparr>, ops))
           | (Inr v, d, ops) \<Rightarrow>
               (Inr v,
                self\<lparr>data := d, page_cache := (page_cache self)(page_number \<mapsto> v)\<rparr>,
                ops)))"

text \<open>A run of calls of \<^verbatim>\<open>get_page\<close>, one after the other, whatever each returns.\<close>

fun get_pages :: "int list \<Rightarrow> 'a paginator \<Rightarrow> 'a paginator" where
  "get_pages [] self = self"
| "get_pages (n # ns) self = get_pages ns (fst (snd (get_page n self)))"

subsection \<open>A session: \<^verbatim>\<open>start\<close>\<close>

text \<open>
  The five navigation symbols, in the order of \<^verbatim>\<open>valid_emojis\<close>: double triangle to the
  left, arrow to the left, square for stop, arrow to the right, double triangle to the
  right. Any other emoji is \<^verbatim>\<open>OtherEmoji\<close>.
\<close>

datatype emoji = Rewind | LeftArrow | StopSquare | RightArrow | FastForward | OtherEmoji string

definition valid_emojis :: "emoji list" where
  "valid_emojis = [Rewind, LeftArrow, StopSquare, RightArrow, FastForward]"

text \<open>
  What a formatter returns: an embed, a string, or a dictionary of keyword arguments
  for \<^verbatim>\<open>Message.edit\<close> (an association list with distinct keys).
\<close>

datatype embed = Embed int string string

datatype argval = ArgNone | ArgStr string | ArgEmbed embed

type_synonym kwargs = "(string \<times> argval) list"

datatype rendered = AsEmbed embed | AsText string | AsDict kwargs

definition setdefault :: "string \<Rightarrow> argval \<Rightarrow> kwargs \<Rightarrow> kwargs" where
  "setdefault k v d = (case map_of d k of None \<Rightarrow> d @ [(k, v)] | Some _ \<Rightarrow> d)"

definition normalize :: "rendered \<Rightarrow> kwargs" where
  "normalize r =
     setdefault ''embed'' ArgNone
       (setdefault ''content'' ArgNone
          (case r of
             AsEmbed e \<Rightarrow> [(''embed'', ArgEmbed e)]
           | AsText t \<Rightarrow> [(''content'', ArgStr t)]
           | AsDict d \<Rightarrow> d))"

text \<open>\<^verbatim>\<open>payload != last_payload\<close>: a dictionary differs from \<^verbatim>\<open>None\<close>, and from another
  dictionary when their items differ.\<close>

definition payload_differs :: "kwargs \<Rightarrow> kwargs option \<Rightarrow> bool" where
  "payload_differs payload last_payload =
     (case last_payload of None \<Rightarrow> True | Some d \<Rightarrow> set payload \<noteq> set d)"

text \<open>
  A report to the owners (the fields of the text the error handler builds): the error,
  the guild, the channel, the user and the content of the message.
\<close>

datatype report = Report string int int int string

text \<open>
  The log of a call: what it did to the data (\<^verbatim>\<open>FromSource\<close>) and every operation it
  tried on the chat, in order. \<^verbatim>\<open>Navigated e i r\<close> is a mark left for every reaction that
  passed the check of line 102: the emoji, \<^verbatim>\<open>current_page\<close> before lines 118-132 ran,
  and what these lines did. \<^verbatim>\<open>Moved c p m\<close>: they were left normally, \<^verbatim>\<open>c\<close> is the
  candidate page that the reaction gave, \<^verbatim>\<open>p\<close> and \<^verbatim>\<open>m\<close> are \<^verbatim>\<open>current_page\<close> and
  \<^verbatim>\<open>max_pages\<close> then. \<^verbatim>\<open>Failed x\<close>: the exception \<^verbatim>\<open>x\<close> left them.
\<close>

datatype nav_outcome = Failed pyerror | Moved pyval pyval pyval

datatype effect =
    FromSource source_op
  | SendMessage string
  | SendAuthor string
  | EditMessage kwargs
  | AddReaction emoji
  | ClearReactions
  | Navigated emoji pyval nav_outcome
  | Reinvoke
  | OwnerDM int report
  | WebhookSend report string

text \<open>
  What surrounds a session: the invoking user, the id of the message that \<^verbatim>\<open>ctx.send\<close>
  returns, the chat (which operation fails, given what was done before, and with which
  exception), and what the attribute \<^verbatim>\<open>Exception\<close> of the module \<^verbatim>\<open>discord\<close> is
  (\<^verbatim>\<open>None\<close> when the module has no such attribute, as in the library, whose root class is
  \<^verbatim>\<open>DiscordException\<close>).
\<close>

record chat =
  author_id :: int
  message_id :: int
  sink :: "effect list \<Rightarrow> effect \<Rightarrow> pyerror option"
  discord_Exception :: "exc_class option"

text \<open>The events that the two \<^verbatim>\<open>wait_for\<close> see, in order: a reaction added or removed
  (emoji, user, message), or the timeout of the wait. After the last one nothing comes
  and the wait times out.\<close>

datatype reaction_event = Timeout | Reaction emoji int int

record 'a result =
  outcome :: "pyerror + unit"
  final :: "'a paginator"
  log :: "effect list"

text \<open>Lines 135-138: clear the reactions; a failure is looked up in the \<^verbatim>\<open>except\<close>
  clause, whose expression \<^verbatim>\<open>discord.Exception\<close> is evaluated then.\<close>

definition clear_up :: "chat \<Rightarrow> 'a paginator \<Rightarrow> effect list \<Rightarrow> 'a result" where
  "clear_up E self lg =
     (case sink E lg ClearReactions of
        None \<Rightarrow> \<lparr>outcome = Inr (), final = self, log = lg @ [ClearReactions]\<rparr>
      | Some e \<Rightarrow>
          (case discord_Exception E of
             None \<Rightarrow> \<lparr>outcome = Inl AttributeError, final = self, log = lg @ [ClearReactions]\<rparr>
           | Some c \<Rightarrow>
               \<lparr>outcome = (if isinstance e [c] then Inr () else Inl e), final = self,
                log = lg @ [ClearReactions]\<rparr>))"

text \<open>Lines 118-124: the page that a reaction asks for.\<close>

fun turn :: "emoji \<Rightarrow> 'a paginator \<Rightarrow> pyerror + pyval" where
  "turn Rewind self = Inr (PyInt 0)"
| "turn LeftArrow self = py_sub (current_page self) (PyInt 1)"
| "turn StopSquare self = Inr PyNone"
| "turn RightArrow self = py_add (current_page self) (PyInt 1)"
| "turn FastForward self = Inr (max_pages self)"
| "turn (OtherEmoji _) self = Inl KeyError"

text \<open>Lines 129-132: the clamp.\<close>

definition clamp :: "'a paginator \<Rightarrow> pyerror + 'a paginator" where
  "clamp self =
     (case py_ge (current_page self) (max_pages self) of
        Inl e \<Rightarrow> Inl e
      | Inr True \<Rightarrow>
          (case py_sub (max_pages self) (PyInt 1) of
             Inl e \<Rightarrow> Inl e
           | Inr v \<Rightarrow> Inr (self\<lparr>current_page := v\<rparr>))
      | Inr False \<Rightarrow>
          (case py_lt (current_page self) (PyInt 0) of
             Inl e \<Rightarrow> Inl e
           | Inr True \<Rightarrow> Inr (self\<lparr>current_page := PyInt 0\<rparr>)
           | Inr False \<Rightarrow> Inr self))"

text \<open>
  The loop of lines 82-132, as two functions: \<^verbatim>\<open>render\<close> is lines 85-97 and
  \<^verbatim>\<open>await\<close> lines 100-132. \<^verbatim>\<open>valid\<close> is the local \<^verbatim>\<open>valid_emojis\<close> (\<^verbatim>\<open>None\<close> when line
  70 did not run and the name is unbound), \<^verbatim>\<open>last_payload\<close> the local of that name:
  line 95 assigns to \<^verbatim>\<open>payload\<close>, so the loop passes \<^verbatim>\<open>last_payload\<close> on as it was.
  The check of line 102 runs on every event, and an event that fails it is passed
  over. With \<^verbatim>\<open>valid_emojis\<close> unbound the check raises \<^verbatim>\<open>NameError\<close> and never passes;
  the waiting future hands the exception to line 113.
\<close>

fun render ::
    "('a paginator \<Rightarrow> 'a list \<Rightarrow> rendered) \<Rightarrow> chat \<Rightarrow> emoji list option \<Rightarrow> 'a paginator \<Rightarrow>
     kwargs option \<Rightarrow> effect list \<Rightarrow> reaction_event list \<Rightarrow> 'a result"
  and await ::
    "('a paginator \<Rightarrow> 'a list \<Rightarrow> rendered) \<Rightarrow> chat \<Rightarrow> emoji list option \<Rightarrow> 'a paginator \<Rightarrow>
     kwargs option \<Rightarrow> effect list \<Rightarrow> reaction_event list \<Rightarrow> 'a result"
where
  "render F E valid self last_payload lg evs =
     (case current_page self of
        PyInt n \<Rightarrow>
          (case get_page n self of
             (Inl e, self', ops) \<Rightarrow>
               \<lparr>outcome = Inl e, final = self', log = lg @ map FromSource ops\<rparr>
           | (Inr items, self', ops) \<Rightarrow>
               (let payload = normalize (F self' items);
                    lg1 = lg @ map FromSource ops;
                    edited = payload_differs payload last_payload;
                    lg2 = (if edited then lg1 @ [EditMessage payload] else lg1);
                    failed = (if edited then sink E lg1 (EditMessage payload) else None)
                in case failed of
                     Some e \<Rightarrow> \<lparr>outcome = Inl e, final = self', log = lg2\<rparr>
                   | None \<Rightarrow>
                       (if max_pages self' = PyInt 1
                        then \<lparr>outcome = Inr (), final = self', log = lg2\<rparr>
                        else await F E valid self' last_payload lg2 evs)))
      | _ \<Rightarrow> \<lparr>outcome = Inl TypeError, final = self, log = lg\<rparr>)"
| "await F E valid self last_payload lg [] = clear_up E self lg"
| "await F E valid self last_payload lg (Timeout # evs) = clear_up E self lg"
| "await F E valid self last_payload lg (Reaction em user msg # evs) =
     (case valid of
        None \<Rightarrow> \<lparr>outcome = Inl NameError, final = self, log = lg\<rparr>
      | Some vs \<Rightarrow>
          (if List.member vs em \<and> user = author_id E \<and> msg = message_id E
           then (case turn em self of
                   Inl e \<Rightarrow>
                     \<lparr>outcome = Inl e, final = self,
                      log = lg @ [Navigated em (current_page self) (Failed e)]\<rparr>
                 | Inr c \<Rightarrow>
                     (if c = PyNone
                      then clear_up E (self\<lparr>current_page := c\<rparr>)
                             (lg @ [Navigated em (current_page self)
                                      (Moved c c (max_pages self))])
                      else (case clamp (self\<lparr>current_page := c\<rparr>) of
                              Inl e \<Rightarrow>
                                \<lparr>outcome = Inl e, final = self\<lparr>current_page := c\<rparr>,
                                 log = lg @ [Navigated em (current_page self) (Failed e)]\<rparr>
                            | Inr self' \<Rightarrow>
                                render F E valid self' last_payload
                                  (lg @ [Navigated em (current_page self)
                                           (Moved c (current_page self') (max_pages self'))])
                                  evs)))
           else await F E valid self last_payload lg evs))"

text \<open>\<^verbatim>\<open>start\<close>, lines 62-81, then the loop. The reactions are added by tasks of their own
  (line 78), whose failures do not reach \<^verbatim>\<open>start\<close>.\<close>

definition start ::
    "('a paginator \<Rightarrow> 'a list \<Rightarrow> rendered) \<Rightarrow> chat \<Rightarrow> 'a paginator \<Rightarrow> reaction_event list \<Rightarrow>
     'a result" where
  "start F E self0 evs =
     (let self = self0\<lparr>current_page := PyInt 0\<rparr>
      in if max_pages self = PyInt 0
         then \<lparr>outcome =
                 (case sink E [] (SendMessage ''There's no data to be shown.'') of
                    Some e \<Rightarrow> Inl e | None \<Rightarrow> Inr ()),
               final = self, log = [SendMessage ''There's no data to be shown.'']\<rparr>
         else (case sink E [] (SendMessage ''Menu loading...'') of
                 Some e \<Rightarrow>
                   \<lparr>outcome = Inl e, final = self, log = [SendMessage ''Menu loading...'']\<rparr>
               | None \<Rightarrow>
                   (case py_gt (max_pages self) (PyInt 1) of
                      Inl e \<Rightarrow>
                        \<lparr>outcome = Inl e, final = self, log = [SendMessage ''Menu loading...'']\<rparr>
                    | Inr True \<Rightarrow>
                        render F E (Some valid_emojis) self None
                          (SendMessage ''Menu loading...'' # map AddReaction valid_emojis) evs
                    | Inr False \<Rightarrow>
                        render F E None self None [SendMessage ''Menu loading...''] evs)))"

section \<open>The error handler (cogs/error_handler.py)\<close>

text \<open>
  The context of the failed command, with the attributes the handler reads;
  \<^verbatim>\<open>original_author_id\<close> is \<^verbatim>\<open>None\<close> while the attribute is not set, \<^verbatim>\<open>guild_id\<close> is
  \<^verbatim>\<open>None\<close> outside a guild.
\<close>

record invocation =
  clean_prefix :: string
  command_name :: string
  ctx_author_id :: int
  original_author_id :: "int option"
  guild_id :: "int option"
  channel_id :: int
  message_content :: string

text \<open>
  The error: the classes it is an instance of, \<^verbatim>\<open>str(error)\<close>, and the attributes the
  formatters read. \<^verbatim>\<open>retry_after_spaced\<close> is
  \<^verbatim>\<open>utils.TimeValue(error.retry_after).clean_spaced\<close> (\<^verbatim>\<open>TimeValue\<close> is not in these
  files); \<^verbatim>\<open>status\<close> is \<^verbatim>\<open>None\<close> for an error with no such attribute.
\<close>

record command_error =
  classes :: "exc_class list"
  error_str :: string
  param :: string
  param_name :: string
  retry_after_spaced :: string
  missing_roles :: "string list"
  missing_role :: string
  missing_perms :: "string list"
  status :: "string option"

text \<open>What a formatter returns: \<^verbatim>\<open>None\<close>, a string, or a pair of strings.\<close>

datatype response = ONone | OStr string | OPair string string

fun join :: "string \<Rightarrow> string list \<Rightarrow> string" where
  "join sep [] = []"
| "join sep [x] = x"
| "join sep (x # y # ys) = x @ sep @ join sep (y # ys)"

definition quoted_roles :: "string list \<Rightarrow> string" where
  "quoted_roles rs = join '', '' (map (\<lambda>i. ''`'' @ i @ ''`'') rs)"

definition see_help :: "invocation \<Rightarrow> string" where
  "see_help ctx = '' - see `'' @ clean_prefix ctx @ ''help '' @ command_name ctx @ ''`.''"

definition first_perm :: "command_error \<Rightarrow> pyerror + string" where
  "first_perm error = (case missing_perms error of [] \<Rightarrow> Inl IndexError | x # _ \<Rightarrow> Inr x)"

definition COMMAND_ERROR_RESPONSES ::
    "(exc_class list \<times> (invocation \<Rightarrow> command_error \<Rightarrow> pyerror + response)) list" where
  "COMMAND_ERROR_RESPONSES =
    [([MissingRequiredArgumentString], \<lambda>ctx error. Inr (OStr
        (''You're missing the `'' @ param error
         @ ''` argument, which is required for this command'' @ see_help ctx))),
     ([MissingRequiredArgument], \<lambda>ctx error. Inr (OStr
        (''You're missing the `'' @ param_name error
         @ ''` argument, which is required for this command'' @ see_help ctx))),
     ([UnexpectedQuoteError, InvalidEndOfQuotedStringError, ExpectedClosingQuoteError],
      \<lambda>ctx error. Inr (OStr ''The quotes in your message have been done incorrectly.'')),
     ([CommandOnCooldown], \<lambda>ctx error. Inr (OStr
        (''You can't use this command again for another '' @ retry_after_spaced error @ ''.''))),
     ([NSFWChannelRequired],
      \<lambda>ctx error. Inr (OStr ''This command can't be run in a non-NSFW channel.'')),
     ([DisabledCommand], \<lambda>ctx error. Inr (OStr ''This command has been disabled.'')),
     ([MissingAnyRole], \<lambda>ctx error. Inr (OStr
        (''You need to have one of the '' @ quoted_roles (missing_roles error)
         @ '' roles to be able to run this command.''))),
     ([BotMissingAnyRole], \<lambda>ctx error. Inr (OStr
        (''I need to have one of the '' @ quoted_roles (missing_roles error)
         @ '' roles for you to be able to run this command.''))),
     ([MissingRole], \<lambda>ctx error. Inr (OStr
        (''You need to have the `'' @ missing_role error
         @ ''` role to be able to run this command.''))),
     ([BotMissingRole], \<lambda>ctx error. Inr (OStr
        (''I need to have the `'' @ missing_role error
         @ ''` role for you to be able to run this command.''))),
     ([MissingPermissions], \<lambda>ctx error.
        (case first_perm error of
           Inl e \<Rightarrow> Inl e
         | Inr perm \<Rightarrow> Inr (OStr
             (''You need the `'' @ perm @ ''` permission to run this command.'')))),
     ([BotMissingPermissions], \<lambda>ctx error.
        (case first_perm error of
           Inl e \<Rightarrow> Inl e
         | Inr perm \<Rightarrow> Inr (OStr
             (''I need the `'' @ perm @ ''` permission for me to be able to run this command.'')))),
     ([NoPrivateMessage], \<lambda>ctx error. Inr (OStr ''This command can't be run in DMs.'')),
     ([PrivateMessageOnly], \<lambda>ctx error. Inr (OStr ''This command can only be run in DMs.'')),
     ([NotOwner],
      \<lambda>ctx error. Inr (OStr ''You need to be registered as an owner to run this command.'')),
     ([BadArgument, BadUnionArgument], \<lambda>ctx error. Inr (OStr (error_str error))),
     ([TooManyArguments], \<lambda>ctx error. Inr (OStr
        (''You gave too many arguments to this command'' @ see_help ctx))),
     ([NotFound], \<lambda>ctx error. Inr ONone),
     ([Forbidden], \<lambda>ctx error. Inr (OPair
        ''Discord is saying I'm unable to perform that action.''
        ''Discord is saying I'm unable to perform that action - I probably don't have permission to talk in that channel.'')),
     ([HTTPException, ClientOSError], \<lambda>ctx error.
        (case status error of
           None \<Rightarrow> Inl AttributeError
         | Some st \<Rightarrow> Inr (OStr
             (''Discord messed up there somewhere - do you mind trying again? I received a ''
              @ st @ '' error.''))))]"

text \<open>The bot: its owners, its configuration (\<^verbatim>\<open>None\<close> when the bot has no attribute
  \<^verbatim>\<open>config\<close>; \<^verbatim>\<open>owners\<close> is \<^verbatim>\<open>None\<close> when the key is absent), its name, and the chat.\<close>

record config =
  dm_uncaught_errors :: bool
  owners :: "int list option"
  event_webhook_url :: "string option"

record bot =
  owner_ids :: "int list"
  bot_config :: "config option"
  user_name :: string
  chat_sink :: "effect list \<Rightarrow> effect \<Rightarrow> pyerror option"

record handled =
  raised :: "pyerror option"
  ctx_after :: invocation
  effects :: "effect list"

text \<open>\<^verbatim>\<open>send_to_ctx_or_author\<close>: the result is the exception that leaves it, if any, and
  the log.\<close>

definition send_to_ctx_or_author ::
    "bot \<Rightarrow> effect list \<Rightarrow> string \<Rightarrow> string option \<Rightarrow> pyerror option \<times> effect list" where
  "send_to_ctx_or_author B lg text author_text =
     (case chat_sink B lg (SendMessage text) of
        None \<Rightarrow> (None, lg @ [SendMessage text])
      | Some e \<Rightarrow>
          (if isinstance e [Forbidden]
           then (let t = (case author_text of
                            None \<Rightarrow> text
                          | Some a \<Rightarrow> (if a = [] then text else a));
                     lg1 = lg @ [SendMessage text]
                 in case chat_sink B lg1 (SendAuthor t) of
                      None \<Rightarrow> (None, lg1 @ [SendAuthor t])
                    | Some e' \<Rightarrow>
                        (if isinstance e' [Forbidden] then (None, lg1 @ [SendAuthor t])
                         else (Some e', lg1 @ [SendAuthor t])))
           else if isinstance e [NotFound] then (None, lg @ [SendMessage text])
           else (Some e, lg @ [SendMessage text])))"

text \<open>Lines 162-165: the first pair of the table whose types the error is an instance
  of; its formatter gives the output.\<close>

fun lookup_response ::
    "(exc_class list \<times> (invocation \<Rightarrow> command_error \<Rightarrow> pyerror + response)) list \<Rightarrow>
     invocation \<Rightarrow> command_error \<Rightarrow> pyerror + response" where
  "lookup_response [] ctx error = Inr ONone"
| "lookup_response ((error_types, function) # rest) ctx error =
     (if isinstance (LibError (classes error)) error_types then function ctx error
      else lookup_response rest ctx error)"

text \<open>Line 166: a string is true when it is not empty, a pair is true.\<close>

fun truthy :: "response \<Rightarrow> bool" where
  "truthy ONone = False"
| "truthy (OStr s) = (s \<noteq> [])"
| "truthy (OPair a b) = True"

text \<open>
  Lines 167-171. Unpacking a pair into two names succeeds; unpacking a string iterates
  over it, which succeeds for a string of two characters and raises \<^verbatim>\<open>ValueError\<close>
  for any other, and \<^verbatim>\<open>ValueError\<close> is not the \<^verbatim>\<open>TypeError\<close> the handler catches.
  \<^verbatim>\<open>None\<close> is not true at line 166 and does not come here; unpacking it would raise the
  \<^verbatim>\<open>TypeError\<close> that is caught, and \<^verbatim>\<open>None\<close> would be sent.
\<close>

fun send_output :: "bot \<Rightarrow> effect list \<Rightarrow> response \<Rightarrow> pyerror option \<times> effect list" where
  "send_output B lg (OPair a b) = send_to_ctx_or_author B lg a (Some b)"
| "send_output B lg (OStr s) =
     (case s of
        [a, b] \<Rightarrow> send_to_ctx_or_author B lg [a] (Some [b])
      | _ \<Rightarrow> (Some ValueError, lg))"
| "send_output B lg ONone = send_to_ctx_or_author B lg [] None"

text \<open>Lines 189-192: a message to every configured owner; the first failure leaves
  the loop.\<close>

fun dm_owners :: "bot \<Rightarrow> effect list \<Rightarrow> report \<Rightarrow> int list \<Rightarrow> pyerror option \<times> effect list" where
  "dm_owners B lg r [] = (None, lg)"
| "dm_owners B lg r (owner_id # rest) =
     (case chat_sink B lg (OwnerDM owner_id r) of
        Some e \<Rightarrow> (Some e, lg @ [OwnerDM owner_id r])
      | None \<Rightarrow> dm_owners B (lg @ [OwnerDM owner_id r]) r rest)"

text \<open>Lines 180-208: the report to the owners and to the webhook, then the error is
  raised again.\<close>

definition escalate :: "bot \<Rightarrow> invocation \<Rightarrow> command_error \<Rightarrow> effect list \<Rightarrow> pyerror option \<times> effect list" where
  "escalate B ctx error lg =
     (case guild_id ctx of
        None \<Rightarrow> (Some AttributeError, lg)
      | Some g \<Rightarrow>
          (let r = Report (error_str error) g (channel_id ctx) (ctx_author_id ctx)
                     (message_content ctx);
               dm = (case bot_config B of
                       None \<Rightarrow> (None, lg)
                     | Some c \<Rightarrow>
                         (if dm_uncaught_errors c
                          then (case owners c of
                                  None \<Rightarrow> (Some KeyError, lg)
                                | Some os \<Rightarrow> dm_owners B lg r os)
                          else (None, lg)))
           in case dm of
                (Some e, lg1) \<Rightarrow> (Some e, lg1)
              | (None, lg1) \<Rightarrow>
                  (case bot_config B of
                     None \<Rightarrow> (Some AttributeError, lg1)
                   | Some c \<Rightarrow>
                       (case event_webhook_url c of
                          None \<Rightarrow> (Some (LibError (classes error)), lg1)
                        | Some url \<Rightarrow>
                            (if url = [] then (Some (LibError (classes error)), lg1)
                             else (case chat_sink B lg1 (WebhookSend r (user_name B @ '' - Error'')) of
                                     Some e \<Rightarrow>
                                       (Some e, lg1 @ [WebhookSend r (user_name B @ '' - Error'')])
                                   | None \<Rightarrow>
                                       (Some (LibError (classes error)),
                                        lg1 @ [WebhookSend r (user_name B @ '' - Error'')])))))))"

definition ignored_errors :: "exc_class list" where
  "ignored_errors = [CommandNotFound, InvokedMetaCommand]"

definition owner_reinvoke_errors :: "exc_class list" where
  "owner_reinvoke_errors =
     [MissingRole, MissingAnyRole, MissingPermissions, CommandOnCooldown, DisabledCommand]"

definition raw_text :: "command_error \<Rightarrow> string" where
  "raw_text error = ''```py'' @ [CHR 0x0A] @ error_str error @ ''```''"

text \<open>\<^verbatim>\<open>on_command_error\<close>.\<close>

definition on_command_error :: "bot \<Rightarrow> invocation \<Rightarrow> command_error \<Rightarrow> handled" where
  "on_command_error B ctx0 error =
     (if isinstance (LibError (classes error)) ignored_errors
      then \<lparr>raised = None, ctx_after = ctx0, effects = []\<rparr>
      else
        (let original = (case original_author_id ctx0 of
                           None \<Rightarrow> ctx_author_id ctx0 | Some a \<Rightarrow> a);
             ctx = ctx0\<lparr>original_author_id := Some original\<rparr>
         in if List.member (owner_ids B) original
               \<and> isinstance (LibError (classes error)) owner_reinvoke_errors
            then \<lparr>raised = chat_sink B [] Reinvoke, ctx_after = ctx, effects = [Reinvoke]\<rparr>
            else
              (case lookup_response COMMAND_ERROR_RESPONSES ctx error of
                 Inl e \<Rightarrow> \<lparr>raised = Some e, ctx_after = ctx, effects = []\<rparr>
               | Inr output \<Rightarrow>
                   (if truthy output
                    then (case send_output B [] output of
                            (r, lg) \<Rightarrow> \<lparr>raised = r, ctx_after = ctx, effects = lg\<rparr>)
                    else
                      (let lg1 = [SendMessage (raw_text error)];
                           r1 = (case chat_sink B [] (SendMessage (raw_text error)) of
                                   None \<Rightarrow> None
                                 | Some e \<Rightarrow>
                                     (if isinstance e [Forbidden, NotFound] then None
                                      else Some e))
                       in case r1 of
                            Some e \<Rightarrow> \<lparr>raised = Some e, ctx_after = ctx, effects = lg1\<rparr>
                          | None \<Rightarrow>
                              (case escalate B ctx error lg1 of
                                 (r, lg) \<Rightarrow> \<lparr>raised = r, ctx_after = ctx, effects = lg\<rparr>))))))"

section \<open>Predicates on logs and states\<close>

text \<open>
  The candidate page of a reaction as the specification has it: the first-page symbol
  gives 0, the previous-page symbol \<^verbatim>\<open>i - 1\<close>, the stop symbol \<^verbatim>\<open>None\<close>, the next-page symbol
  \<^verbatim>\<open>i + 1\<close> and the last-page symbol \<^verbatim>\<open>max_pages\<close>, for the current page \<^verbatim>\<open>i\<close>; no other
  emoji has one.
\<close>

fun spec_candidate :: "emoji \<Rightarrow> int \<Rightarrow> int \<Rightarrow> pyval option" where
  "spec_candidate Rewind i k = Some (PyInt 0)"
| "spec_candidate LeftArrow i k = Some (PyInt (i - 1))"
| "spec_candidate StopSquare i k = Some PyNone"
| "spec_candidate RightArrow i k = Some (PyInt (i + 1))"
| "spec_candidate FastForward i k = Some (PyInt k)"
| "spec_candidate (OtherEmoji _) i k = None"

text \<open>
  \<^verbatim>\<open>clamped c p m\<close>: the candidate page \<^verbatim>\<open>c\<close>, the page \<^verbatim>\<open>p\<close> it was clamped to and
  \<^verbatim>\<open>max_pages\<close> are integers, \<^verbatim>\<open>p\<close> is in \<^verbatim>\<open>[0, m)\<close>, and \<^verbatim>\<open>p\<close> is \<^verbatim>\<open>m - 1\<close> for a
  candidate at or past \<^verbatim>\<open>m\<close>, \<^verbatim>\<open>0\<close> for a negative one, the candidate otherwise.
  \<^verbatim>\<open>stepped e i r\<close>: the navigation step did not fail, the pages are integers, the
  candidate is the specification's, and the page was clamped (or is \<^verbatim>\<open>None\<close>, for the
  candidate \<^verbatim>\<open>None\<close>). \<^verbatim>\<open>nav_law\<close> reads a log: every mark is such a step, and a mark
  with the candidate \<^verbatim>\<open>None\<close> is followed by the clearing of the reactions and nothing
  else.
\<close>

fun clamped :: "pyval \<Rightarrow> pyval \<Rightarrow> pyval \<Rightarrow> bool" where
  "clamped (PyInt c) (PyInt i) (PyInt k) =
     (0 \<le> i \<and> i < k \<and> i = (if k \<le> c then k - 1 else if c < 0 then 0 else c))"
| "clamped _ _ _ = False"

fun stepped :: "emoji \<Rightarrow> pyval \<Rightarrow> nav_outcome \<Rightarrow> bool" where
  "stepped em (PyInt i) (Moved c p (PyInt k)) =
     (spec_candidate em i k = Some c \<and> (if c = PyNone then p = PyNone else clamped c p (PyInt k)))"
| "stepped _ _ _ = False"

fun stops :: "nav_outcome \<Rightarrow> bool" where
  "stops (Moved c p m) = (c = PyNone)"
| "stops (Failed _) = False"

fun step_ok :: "effect \<Rightarrow> bool" where
  "step_ok (Navigated em i r) = (stepped em i r \<and> \<not> stops r)"
| "step_ok _ = True"

fun nav_law :: "effect list \<Rightarrow> bool" where
  "nav_law [] = True"
| "nav_law (Navigated em i r # rest) =
     (stepped em i r \<and> (if stops r then rest = [ClearReactions] else nav_law rest))"
| "nav_law (e # rest) = nav_law rest"

text \<open>
  What the loop keeps: where the navigation symbols are bound, they are the five of
  line 70 and \<^verbatim>\<open>max_pages\<close> is an integer, at least 1. \<^verbatim>\<open>seq_inv\<close>: a paginator over the
  sequence \<^verbatim>\<open>xs\<close> whose cache holds slices of \<^verbatim>\<open>xs\<close> only.
\<close>

definition loop_inv :: "emoji list option \<Rightarrow> 'a paginator \<Rightarrow> bool" where
  "loop_inv valid self =
     (valid = None \<or>
      (valid = Some valid_emojis \<and> (case max_pages self of PyInt k \<Rightarrow> 1 \<le> k | _ \<Rightarrow> False)))"

definition seq_inv :: "'a list \<Rightarrow> int \<Rightarrow> pyval \<Rightarrow> 'a paginator \<Rightarrow> bool" where
  "seq_inv xs P m self = (data self = Sequential xs \<and> per_page self = P \<and> max_pages self = m \<and>
     (\<forall>k v. page_cache self k = Some v \<longrightarrow> v = py_slice xs (k * P) ((k + 1) * P)))"

section \<open>Example inputs\<close>

text \<open>
  A formatter, two chats (in \<^verbatim>\<open>locked_chat\<close> clearing the reactions is forbidden),
  and paginators over sequences and generators, as \<^verbatim>\<open>__init__\<close> makes them.
\<close>

definition listing :: "string paginator \<Rightarrow> string list \<Rightarrow> rendered" where
  "listing self items = AsText (concat items)"

definition quiet_chat :: chat where
  "quiet_chat = \<lparr>author_id = 1, message_id = 2, sink = (\<lambda>lg e. None), discord_Exception = None\<rparr>"

definition locked_chat :: chat where
  "locked_chat = \<lparr>author_id = 1, message_id = 2,
     sink = (\<lambda>lg e. if e = ClearReactions then Some (LibError [Forbidden, HTTPException, DiscordException]) else None),
     discord_Exception = None\<rparr>"

definition abc :: "string paginator" where
  "abc = \<lparr>data = Sequential [''a'', ''b'', ''c''], per_page = 2, current_page = PyNone,
           page_cache = Map.empty, max_pages = PyInt 2\<rparr>"

definition nothing :: "string paginator" where
  "nothing = \<lparr>data = Sequential [], per_page = 10, current_page = PyNone,
           page_cache = Map.empty, max_pages = PyInt 0\<rparr>"

definition long :: "int paginator" where
  "long = \<lparr>data = Sequential [1, 2, 3, 4, 5, 6, 7], per_page = 3, current_page = PyNone,
           page_cache = Map.empty, max_pages = PyInt 3\<rparr>"


definition numbers :: "int paginator" where
  "numbers = \<lparr>data = Generator [[1], [2]], per_page = 10, current_page = PyNone,
       page_cache = Map.empty, max_pages = PyStr ''?''\<rparr>"

definition numbers_async :: "int paginator" where
  "numbers_async = \<lparr>data = AsyncGenerator [[1], [2]], per_page = 10, current_page = PyNone,
       page_cache = Map.empty, max_pages = PyStr ''?''\<rparr>"

definition exhausted :: "int paginator" where
  "exhausted = \<lparr>data = Generator [], per_page = 10, current_page = PyNone,
       page_cache = Map.empty, max_pages = PyStr ''?''\<rparr>"

definition exhausted_async :: "int paginator" where
  "exhausted_async = \<lparr>data = AsyncGenerator [], per_page = 10, current_page = PyNone,
       page_cache = Map.empty, max_pages = PyStr ''?''\<rparr>"

text \<open>
  A bot with one owner and a webhook, a command invoked by user 5, and two errors:
  \<^verbatim>\<open>discord.NotFound\<close> and \<^verbatim>\<open>commands.CommandNotFound\<close>.
\<close>

definition some_bot :: bot where
  "some_bot = \<lparr>owner_ids = [7],
     bot_config = Some \<lparr>dm_uncaught_errors = True, owners = Some [7],
                        event_webhook_url = Some ''https://hook''\<rparr>,
     user_name = ''Bot'', chat_sink = (\<lambda>lg e. None)\<rparr>"

definition some_ctx :: invocation where
  "some_ctx = \<lparr>clean_prefix = ''!'', command_name = ''ping'', ctx_author_id = 5,
     original_author_id = None, guild_id = Some 10, channel_id = 11,
     message_content = ''!ping''\<rparr>"

definition not_found :: command_error where
  "not_found = \<lparr>classes = [NotFound, HTTPException, DiscordException],
     error_str = ''404 Not Found'', param = [], param_name = [], retry_after_spaced = [],
     missing_roles = [], missing_role = [], missing_perms = [], status = Some ''404''\<rparr>"

definition unknown_command :: command_error where
  "unknown_command = \<lparr>classes = [CommandNotFound, CommandError, DiscordException],
     error_str = ''Command pong is not found'', param = [], param_name = [],
     retry_after_spaced = [], missing_roles = [], missing_role = [], missing_perms = [],
     status = None\<rparr>"

section \<open>Page retrieval\<close>

subsection \<open>The cache\<close>

lemma get_page_cached:
  "page_cache self n = Some v \<Longrightarrow> get_page n self = (Inr v, self, [])"
  by (simp add: get_page_def)

lemma get_page_keeps_cache:
  "page_cache self n = Some v \<Longrightarrow> page_cache (fst (snd (get_page m self))) n = Some v"
  by (auto simp: get_page_def split: option.splits prod.splits sum.splits)

lemma get_pages_keeps_cache:
  "page_cache self n = Some v \<Longrightarrow> page_cache (get_pages ms self) n = Some v"
  by (induction ms arbitrary: self) (simp_all add: get_page_keeps_cache)

lemma get_page_max_pages:
  "get_page n self = (Inr v, self', ops) \<Longrightarrow> max_pages self' = max_pages self"
  by (auto simp: get_page_def split: option.splits prod.splits sum.splits if_splits)

text \<open>
  Claim C9. A page that is in the cache stays there through any later calls of
  \<^verbatim>\<open>get_page\<close>, and a call for it returns the cached list, leaves the paginator (its
  data included) as it was and does nothing to the data: no slice, no pull.
\<close>

theorem cached_page_returned:
  assumes "page_cache self n = Some v"
  shows "get_page n (get_pages ms self) = (Inr v, get_pages ms self, [])"
  using assms by (simp add: get_page_cached get_pages_keeps_cache)

theorem cached_page_returned_witness:
  "page_cache (fst (snd (get_page 0 abc))) 0 = Some [''a'', ''b'']
   \<and> get_page 0 (get_pages [1, 0] (fst (snd (get_page 0 abc)))) =
       (Inr [''a'', ''b''], get_pages [1, 0] (fst (snd (get_page 0 abc))), [])"
proof -
  have h: "page_cache (fst (snd (get_page 0 abc))) 0 = Some [''a'', ''b'']"
    by (simp add: get_page_def fetch_def abc_def py_slice_def slice_bound_def)
  show ?thesis using cached_page_returned[OF h, of "[1, 0]"] h by simp
qed

subsection \<open>Sequences\<close>

lemma ceil_pages:
  assumes "0 < (P::int)"
  shows "(if L mod P \<noteq> 0 then L div P + 1 else L div P) = \<lceil>real_of_int L / real_of_int P\<rceil>"
  using assms by (simp add: ceiling_divide_eq_div zdiv_zminus1_eq_if)

lemma init_sequential:
  assumes "0 < P"
  shows "init (Sequential xs) P =
    Inr \<lparr>data = Sequential xs, per_page = P, current_page = PyNone, page_cache = Map.empty,
         max_pages = PyInt \<lceil>real (length xs) / real_of_int P\<rceil>\<rparr>"
proof -
  have "(if int (length xs) mod P \<noteq> 0 then int (length xs) div P + 1 else int (length xs) div P)
        = \<lceil>real (length xs) / real_of_int P\<rceil>"
    using ceil_pages[OF assms, of "int (length xs)"] by simp
  then show ?thesis using assms
    by (simp add: init_def data_is_generator_def py_divmod_def)
qed

lemma init_abc: "init (Sequential [''a'', ''b'', ''c'']) 2 = Inr abc"
  by (simp add: init_def abc_def data_is_generator_def py_divmod_def)

lemma init_long: "init (Sequential [1, 2, 3, 4, 5, 6, 7]) 3 = Inr long"
  by (simp add: init_def long_def data_is_generator_def py_divmod_def)

lemma py_slice_page:
  assumes "0 < P" and "0 \<le> n"
  shows "py_slice xs (n * P) ((n + 1) * P) = take (nat P) (drop (nat (n * P)) xs)"
proof -
  have a: "0 \<le> n * P" using assms by simp
  have b: "0 \<le> (n + 1) * P" using assms by simp
  show ?thesis
  proof (cases "n * P \<le> int (length xs)")
    case True
    show ?thesis
    proof (cases "(n + 1) * P \<le> int (length xs)")
      case t2: True
      have "nat ((n + 1) * P - n * P) = nat P" by (simp add: algebra_simps)
      then show ?thesis using a b True t2 
        by (simp add: py_slice_def slice_bound_def Let_def min_def)
    next
      case f2: False
      have "length (drop (nat (n * P)) xs) \<le> nat P"
        using f2 a by (simp add: algebra_simps)
      moreover have "nat (int (length xs) - n * P) = length (drop (nat (n * P)) xs)"
        using a True by simp
      ultimately show ?thesis using a b True f2
        by (simp add: py_slice_def slice_bound_def Let_def min_def)
    qed
  next
    case False
    then have "(n + 1) * P > int (length xs)" using assms by (simp add: algebra_simps)
    then show ?thesis using a b False
      by (simp add: py_slice_def slice_bound_def Let_def min_def)
  qed
qed

lemma py_slice_beyond:
  assumes "0 < P" and "int (length xs) \<le> n * P"
  shows "py_slice xs (n * P) ((n + 1) * P) = []"
proof -
  have "0 \<le> n * P" using assms by linarith
  moreover have "0 \<le> (n + 1) * P" using assms by (simp add: algebra_simps)
  ultimately show ?thesis using assms
    by (simp add: py_slice_def slice_bound_def Let_def min_def)
qed

lemma py_slice_minus_one:
  assumes "0 < P"
  shows "py_slice xs (- 1 * P) ((- 1 + 1) * P) = []"
  using assms by (simp add: py_slice_def slice_bound_def Let_def)

lemma beyond_last_page:
  assumes "0 < P" and "\<lceil>real (length xs) / real_of_int P\<rceil> \<le> n"
  shows "int (length xs) \<le> n * P"
proof -
  have "real (length xs) / real_of_int P \<le> real_of_int n"
    using assms(2) by (simp add: ceiling_le_iff)
  then have "real (length xs) \<le> real_of_int n * real_of_int P"
    using assms(1) by (simp add: pos_divide_le_eq)
  then have "real_of_int (int (length xs)) \<le> real_of_int (n * P)" by simp
  then show ?thesis using of_int_le_iff by blast
qed

lemma within_pages:
  assumes "0 < P" and "n < \<lceil>real (length xs) / real_of_int P\<rceil>"
  shows "n * P < int (length xs)"
proof -
  have "real_of_int n < real (length xs) / real_of_int P"
    using assms(2) by (simp add: less_ceiling_iff)
  then have "real_of_int n * real_of_int P < real (length xs)"
    using assms(1) by (simp add: pos_less_divide_eq)
  then have "real_of_int (n * P) < real_of_int (int (length xs))" by simp
  then show ?thesis using of_int_less_iff by blast
qed

lemma get_page_seq:
  assumes "seq_inv xs P m self"
  shows "fst (get_page n self) = Inr (py_slice xs (n * P) ((n + 1) * P))
         \<and> seq_inv xs P m (fst (snd (get_page n self)))"
proof (cases "page_cache self n")
  case None
  then show ?thesis using assms
    by (auto simp: seq_inv_def get_page_def fetch_def)
next
  case (Some v)
  then show ?thesis using assms
    by (auto simp: seq_inv_def get_page_def)
qed

lemma get_pages_seq:
  "seq_inv xs P m self \<Longrightarrow> seq_inv xs P m (get_pages ns self)"
  by (induction ns arbitrary: self) (simp_all add: get_page_seq)

lemma get_page_after:
  assumes "seq_inv xs P m self"
  shows "fst (get_page n (get_pages ns self)) = Inr (py_slice xs (n * P) ((n + 1) * P))"
  using get_page_seq[OF get_pages_seq[OF assms]] by blast

text \<open>
  Claim C5, amended. Over a sequence of length L with page size P > 0, \<^verbatim>\<open>max_pages\<close> is
  the ceiling of L / P; after any calls of \<^verbatim>\<open>get_page\<close>, the page of a valid index
  \<^verbatim>\<open>n\<close> is the items at the positions \<^verbatim>\<open>n * P\<close> up to \<^verbatim>\<open>min ((n + 1) * P) L\<close>; an index at
  or past \<^verbatim>\<open>max_pages\<close>, and the index -1, give the empty list; and no index raises.
\<close>

theorem sequence_pages:
  assumes "0 < P" and "init (Sequential xs) P = Inr self"
  shows "max_pages self = PyInt \<lceil>real (length xs) / real_of_int P\<rceil>
    \<and> (\<forall>ns n. 0 \<le> n \<and> n < \<lceil>real (length xs) / real_of_int P\<rceil> \<longrightarrow>
          (\<exists>v. fst (get_page n (get_pages ns self)) = Inr v
             \<and> int (length v) = min ((n + 1) * P) (int (length xs)) - n * P
             \<and> (\<forall>i < length v. v ! i = xs ! (nat (n * P) + i))))
    \<and> (\<forall>ns n. \<lceil>real (length xs) / real_of_int P\<rceil> \<le> n \<or> n = - 1 \<longrightarrow>
          fst (get_page n (get_pages ns self)) = Inr [])
    \<and> (\<forall>ns n. \<exists>v. fst (get_page n (get_pages ns self)) = Inr v)"
proof -
  let ?m = "\<lceil>real (length xs) / real_of_int P\<rceil>"
  have self: "self = \<lparr>data = Sequential xs, per_page = P, current_page = PyNone,
       page_cache = Map.empty, max_pages = PyInt ?m\<rparr>"
    using init_sequential[OF assms(1), of xs] assms(2) by simp
  have inv: "seq_inv xs P (PyInt ?m) self"
    by (simp add: self seq_inv_def)
  have page: "\<And>ns n. fst (get_page n (get_pages ns self)) = Inr (py_slice xs (n * P) ((n + 1) * P))"
    using get_page_after[OF inv] by blast
  have valid: "\<exists>v. fst (get_page n (get_pages ns self)) = Inr v
             \<and> int (length v) = min ((n + 1) * P) (int (length xs)) - n * P
             \<and> (\<forall>i < length v. v ! i = xs ! (nat (n * P) + i))"
    if n: "0 \<le> n" "n < ?m" for ns n
  proof -
    have lt: "n * P < int (length xs)" using within_pages[OF assms(1) n(2)] .
    have nn: "0 \<le> n * P" using n(1) assms(1) by simp
    let ?v = "take (nat P) (drop (nat (n * P)) xs)"
    have "fst (get_page n (get_pages ns self)) = Inr ?v"
      using page py_slice_page[OF assms(1) n(1)] by simp
    moreover have "int (length ?v) = min ((n + 1) * P) (int (length xs)) - n * P"
      using lt nn assms(1) by (simp add: min_def algebra_simps) linarith
    moreover have "\<forall>i < length ?v. ?v ! i = xs ! (nat (n * P) + i)"
      using lt nn by auto
    ultimately show ?thesis by blast
  qed
  have beyond: "fst (get_page n (get_pages ns self)) = Inr []"
    if "?m \<le> n \<or> n = - 1" for ns n
  proof -
    from that show ?thesis
    proof
      assume "?m \<le> n"
      then show ?thesis
        using page py_slice_beyond[OF assms(1) beyond_last_page[OF assms(1)]] by simp
    next
      assume "n = - 1"
      then show ?thesis using page[of "- 1" ns] py_slice_minus_one[OF assms(1), of xs] by simp
    qed
  qed
  show ?thesis using self valid beyond page by simp
qed

theorem sequence_pages_witness:
  "(0::int) < 3 \<and> init (Sequential [1, 2, 3, 4, 5, 6, 7]) 3 = Inr long
   \<and> max_pages long = PyInt 3
   \<and> fst (get_page 2 (get_pages [0, 2] long)) = Inr [7]
   \<and> fst (get_page 3 long) = Inr []"
proof -
  have p: "(0::int) < 3" by simp
  have c: "\<lceil>real (length [1::int, 2, 3, 4, 5, 6, 7]) / real_of_int 3\<rceil> = 3"
    by (simp add: ceiling_eq_iff)
  note t = sequence_pages[OF p init_long]
  have m: "max_pages long = PyInt 3" using t c by simp
  have "\<exists>v. fst (get_page 2 (get_pages [0, 2] long)) = Inr v
             \<and> int (length v) = min ((2 + 1) * 3) (int (length [1::int, 2, 3, 4, 5, 6, 7])) - 2 * 3
             \<and> (\<forall>i < length v. v ! i = [1::int, 2, 3, 4, 5, 6, 7] ! (nat (2 * 3) + i))"
    using t[THEN conjunct2, THEN conjunct1, rule_format, of 2 "[0, 2]"] c by simp
  then obtain v where v: "fst (get_page 2 (get_pages [0, 2] long)) = Inr v"
      and l: "int (length v) = min ((2 + 1) * 3) (int (length [1::int, 2, 3, 4, 5, 6, 7])) - 2 * 3"
      and e: "\<forall>i < length v. v ! i = [1::int, 2, 3, 4, 5, 6, 7] ! (nat (2 * 3) + i)"
    by blast
  have l1: "length v = 1" using l by simp
  then have "v ! 0 = 7" using e by simp
  then have v7: "v = [7]" using l1 by (cases v) auto
  have b: "fst (get_page 3 (get_pages [] long)) = Inr []"
    using t[THEN conjunct2, THEN conjunct2, THEN conjunct1, rule_format, of 3 "[]"] c by simp
  show ?thesis using p init_long m v v7 b by simp
qed

text \<open>
  Claim C5 as it is written fails below -1: a negative bound of a slice counts from
  the end of the sequence, so page -2 of seven items in pages of three is the slice
  \<^verbatim>\<open>[-6:-3]\<close>, which holds three items.
\<close>

theorem negative_page_not_empty:
  "init (Sequential [1, 2, 3, 4, 5, 6, 7]) 3 = Inr long
   \<and> max_pages long = PyInt 3
   \<and> get_page (- 2) long =
       (Inr [2, 3, 4], long\<lparr>page_cache := (page_cache long)(- 2 \<mapsto> [2, 3, 4])\<rparr>, [Sliced (- 6) (- 3)])"
  by (simp add: init_long) (simp add: long_def get_page_def fetch_def py_slice_def slice_bound_def)

subsection \<open>Generators\<close>

text \<open>
  For a generator of either kind a page that is not cached is never fetched: the
  branch of an asynchronous generator calls \<^verbatim>\<open>next\<close> on it and the branch of a generator
  reads its \<^verbatim>\<open>__anext__\<close>. So the end of the data never reaches the handler, which
  would itself raise on the unbound \<^verbatim>\<open>v\<close>.
\<close>

lemma generated_never_pulls:
  "data_is_generator (data self) \<Longrightarrow> page_cache self n = None \<Longrightarrow>
   get_page n self =
     (Inl (if isasyncgen (data self) \<or> isasyncgenfunction (data self) then TypeError
           else AttributeError), self, [])"
  by (cases "data self") (auto simp: data_is_generator_def get_page_def fetch_def is_stop_def)

lemma fetch_never_stops:
  "fetch self n = (Inl e, d, ops) \<Longrightarrow> \<not> is_stop e"
  by (cases "data self") (auto simp: fetch_def is_stop_def)

lemma handler_raises:
  "page_cache self n = None \<Longrightarrow> fetch self n = (Inl e, d, ops) \<Longrightarrow> is_stop e \<Longrightarrow>
   get_page n self = (Inl UnboundLocalError, self\<lparr>data := d, max_pages := PyInt n\<rparr>, ops)"
  by (simp add: get_page_def)

text \<open>
  Claim C1. The code at a generator with two batches left, synchronous and
  asynchronous: \<^verbatim>\<open>get_page(0)\<close> raises, the generator keeps both batches and nothing is
  pulled.
\<close>

theorem generator_not_pulled:
  "init (Generator [[1], [2]]) 10 = Inr numbers
   \<and> get_page 0 numbers = (Inl AttributeError, numbers, [])
   \<and> init (AsyncGenerator [[1], [2]]) 10 = Inr numbers_async
   \<and> get_page 0 numbers_async = (Inl TypeError, numbers_async, [])"
  by (simp add: numbers_def numbers_async_def init_def data_is_generator_def get_page_def
      fetch_def is_stop_def)

text \<open>
  Claim C2. The code at an exhausted generator, synchronous and asynchronous:
  \<^verbatim>\<open>get_page(0)\<close> raises and \<^verbatim>\<open>max_pages\<close> is still \<^verbatim>\<open>'?'\<close>.
\<close>

theorem exhausted_generator_raises:
  "init (Generator []) 10 = Inr exhausted
   \<and> get_page 0 exhausted = (Inl AttributeError, exhausted, [])
   \<and> max_pages (fst (snd (get_page 0 exhausted))) = PyStr ''?''
   \<and> init (AsyncGenerator []) 10 = Inr exhausted_async
   \<and> get_page 0 exhausted_async = (Inl TypeError, exhausted_async, [])
   \<and> max_pages (fst (snd (get_page 0 exhausted_async))) = PyStr ''?''"
  by (simp add: exhausted_def exhausted_async_def init_def data_is_generator_def get_page_def
      fetch_def is_stop_def)

section \<open>Sessions\<close>

lemmas run_simps = start_def get_page_def fetch_def is_stop_def normalize_def setdefault_def
  payload_differs_def clear_up_def clamp_def valid_emojis_def Let_def

lemma log_clear_up: "log (clear_up E self lg) = lg @ [ClearReactions]"
  by (simp add: clear_up_def split: option.splits)

lemma get_page_current_page:
  "get_page n self = (r, self', ops) \<Longrightarrow> current_page self' = current_page self"
  by (auto simp: get_page_def split: option.splits prod.splits sum.splits if_splits)

subsection \<open>One navigation step\<close>

text \<open>
  Lines 118-132 on a paginator whose \<^verbatim>\<open>max_pages\<close> is an integer, at least 1, and whose
  \<^verbatim>\<open>current_page\<close> is an integer: for each of the five symbols the candidate is the
  specification's, and unless it is \<^verbatim>\<open>None\<close> the clamp returns, keeps \<^verbatim>\<open>max_pages\<close> and
  leaves a page in \<^verbatim>\<open>[0, max_pages)\<close>.
\<close>

lemma clamp_total:
  assumes "max_pages self = PyInt k" and "1 \<le> k" and "current_page self = PyInt c"
  shows "\<exists>self'. clamp self = Inr self' \<and> max_pages self' = PyInt k
           \<and> clamped (PyInt c) (current_page self') (PyInt k)"
  using assms by (auto simp: clamp_def split: bool.splits)

lemma navigation_step:
  assumes "max_pages self = PyInt k" and "1 \<le> k" and "current_page self = PyInt i"
    and "em \<in> set valid_emojis"
  shows "\<exists>c. turn em self = Inr c \<and> spec_candidate em i k = Some c
           \<and> (c = PyNone \<or>
               (\<exists>self'. clamp (self\<lparr>current_page := c\<rparr>) = Inr self'
                  \<and> max_pages self' = PyInt k \<and> clamped c (current_page self') (PyInt k)))"
proof (cases em)
  case Rewind
  then show ?thesis
    using assms clamp_total[of "self\<lparr>current_page := PyInt 0\<rparr>" k 0] by simp
next
  case LeftArrow
  then show ?thesis
    using assms clamp_total[of "self\<lparr>current_page := PyInt (i - 1)\<rparr>" k "i - 1"] by simp
next
  case StopSquare
  then show ?thesis using assms by simp
next
  case RightArrow
  then show ?thesis
    using assms clamp_total[of "self\<lparr>current_page := PyInt (i + 1)\<rparr>" k "i + 1"] by simp
next
  case FastForward
  then show ?thesis
    using assms clamp_total[of "self\<lparr>current_page := PyInt k\<rparr>" k k] by simp
next
  case (OtherEmoji x)
  then show ?thesis using assms by (simp add: valid_emojis_def)
qed

lemma stepped_iff:
  "stepped em i r =
     (\<exists>i' k c p. i = PyInt i' \<and> r = Moved c p (PyInt k) \<and> spec_candidate em i' k = Some c
        \<and> ((c = PyNone \<and> p = PyNone) \<or>
            (\<exists>c' j. c = PyInt c' \<and> p = PyInt j \<and> 0 \<le> j \<and> j < k
               \<and> j = (if k \<le> c' then k - 1 else if c' < 0 then 0 else c'))))"
proof (cases r)
  case (Failed x)
  then show ?thesis by simp
next
  case (Moved c p m)
  show ?thesis
  proof (cases i)
    case (PyInt i')
    show ?thesis
    proof (cases m)
      case mk: (PyInt k)
      show ?thesis unfolding Moved PyInt mk
        by (cases c; cases p) auto
    qed (simp_all add: Moved PyInt)
  qed (simp_all add: Moved)
qed

subsection \<open>The log of a session\<close>

lemma step_ok_sources: "list_all step_ok (map FromSource ops)"
  by (induction ops) simp_all

lemma nav_law_append: "list_all step_ok lg \<Longrightarrow> nav_law (lg @ rest) = nav_law rest"
proof (induction lg)
  case Nil then show ?case by simp
next
  case (Cons e lg)
  then show ?case by (cases e) auto
qed

lemma nav_law_ok: "list_all step_ok lg \<Longrightarrow> nav_law lg"
  using nav_law_append[of lg "[]"] by simp

lemma nav_law_split:
  "nav_law (pre @ Navigated em i r # post) \<Longrightarrow>
     stepped em i r \<and> (if stops r then post = [ClearReactions] else nav_law post)"
proof (induction pre)
  case Nil
  then show ?case by simp
next
  case (Cons e pre)
  show ?case
  proof (cases e)
    case (Navigated em' i' r')
    then show ?thesis using Cons by (auto split: if_splits simp: Cons_eq_append_conv)
  qed (use Cons in auto)
qed

lemma loop_nav_law:
  "(loop_inv valid self \<longrightarrow> list_all step_ok lg \<longrightarrow>
      nav_law (log (render F E valid self last_payload lg evs)))"
  "(loop_inv valid self \<longrightarrow> (\<exists>i. current_page self = PyInt i) \<longrightarrow> list_all step_ok lg \<longrightarrow>
      nav_law (log (await F E valid self last_payload lg evs)))"
proof (induction F E valid self last_payload lg evs and F E valid self last_payload lg evs
       rule: render_await.induct)
  case (1 F E valid self last_payload lg evs)
  show ?case
  proof (intro impI)
    assume inv: "loop_inv valid self" and ok: "list_all step_ok lg"
    show "nav_law (log (render F E valid self last_payload lg evs))"
    proof (cases "current_page self")
      case PyNone
      then show ?thesis using ok by (simp add: nav_law_ok)
    next
      case (PyStr s)
      then show ?thesis using ok by (simp add: nav_law_ok)
    next
      case (PyInt n)
      obtain r self' ops where gp: "get_page n self = (r, self', ops)"
        by (cases "get_page n self") auto
      show ?thesis
      proof (cases r)
        case (Inl e)
        then show ?thesis using PyInt gp ok by (simp add: nav_law_ok step_ok_sources)
      next
        case (Inr items)
        have mp: "max_pages self' = max_pages self"
          using gp Inr get_page_max_pages by blast
        have cp: "\<exists>i. current_page self' = PyInt i"
          using get_page_current_page[OF gp] PyInt by simp
        have inv': "loop_inv valid self'" using inv mp by (simp add: loop_inv_def)
        define payload where "payload = normalize (F self' items)"
        define lg1 where "lg1 = lg @ map FromSource ops"
        define edited where "edited = payload_differs payload last_payload"
        define lg2 where "lg2 = (if edited then lg1 @ [EditMessage payload] else lg1)"
        define failed where
          "failed = (if edited then sink E lg1 (EditMessage payload) else None)"
        have ok2: "list_all step_ok lg2"
          using ok by (simp add: lg2_def lg1_def step_ok_sources)
        have unfold: "render F E valid self last_payload lg evs =
           (case failed of
              Some e \<Rightarrow> \<lparr>outcome = Inl e, final = self', log = lg2\<rparr>
            | None \<Rightarrow>
                (if max_pages self' = PyInt 1
                 then \<lparr>outcome = Inr (), final = self', log = lg2\<rparr>
                 else await F E valid self' last_payload lg2 evs))"
          unfolding failed_def lg2_def edited_def lg1_def payload_def
          using PyInt gp Inr by (simp add: Let_def)
        show ?thesis
        proof (cases failed)
          case (Some e)
          then show ?thesis using unfold ok2 by (simp add: nav_law_ok)
        next
          case None
          show ?thesis
          proof (cases "max_pages self' = PyInt 1")
            case True
            then show ?thesis using unfold None ok2 by (simp add: nav_law_ok)
          next
            case False
            have "nav_law (log (await F E valid self' last_payload lg2 evs))"
              using "1.IH"[OF PyInt gp[symmetric] Inr refl payload_def lg1_def edited_def
                  lg2_def failed_def None False] inv' cp ok2
              by simp
            then show ?thesis using unfold None False by simp
          qed
        qed
      qed
    qed
  qed
next
  case (2 F E valid self last_payload lg)
  show ?case by (simp add: log_clear_up nav_law_append)
next
  case (3 F E valid self last_payload lg evs)
  show ?case by (simp add: log_clear_up nav_law_append)
next
  case (4 F E valid self last_payload lg em user msg evs)
  show ?case
  proof (intro impI)
    assume inv: "loop_inv valid self" and cur: "\<exists>i. current_page self = PyInt i"
      and ok: "list_all step_ok lg"
    show "nav_law (log (await F E valid self last_payload lg (Reaction em user msg # evs)))"
    proof (cases valid)
      case None
      then show ?thesis using ok by (simp add: nav_law_ok)
    next
      case (Some vs)
      then have vs: "vs = valid_emojis" using inv by (simp add: loop_inv_def)
      obtain k where k: "max_pages self = PyInt k" "1 \<le> k"
        using inv Some by (auto simp: loop_inv_def split: pyval.splits)
      obtain i where i: "current_page self = PyInt i" using cur by blast
      show ?thesis
      proof (cases "List.member vs em \<and> user = author_id E \<and> msg = message_id E")
        case False
        then show ?thesis using "4.IH"(2)[OF Some False] Some inv cur ok by auto
      next
        case True
        then have em: "em \<in> set valid_emojis" using vs by (simp add: List.member_iff)
        obtain c where c: "turn em self = Inr c" "spec_candidate em i k = Some c"
          and cl: "c = PyNone \<or>
               (\<exists>self'. clamp (self\<lparr>current_page := c\<rparr>) = Inr self'
                  \<and> max_pages self' = PyInt k \<and> clamped c (current_page self') (PyInt k))"
          using navigation_step[OF k i em] by blast
        show ?thesis
        proof (cases "c = PyNone")
          case cn: True
          have "stepped em (PyInt i) (Moved PyNone PyNone (PyInt k))"
            using c cn by simp
          then show ?thesis using Some True c cn ok i k
            by (auto simp: log_clear_up nav_law_append)
        next
          case cn: False
          then obtain self' where s': "clamp (self\<lparr>current_page := c\<rparr>) = Inr self'"
            "max_pages self' = PyInt k" "clamped c (current_page self') (PyInt k)"
            using cl by blast
          have inv': "loop_inv valid self'"
            using s' k Some vs by (simp add: loop_inv_def)
          let ?mark = "Navigated em (current_page self)
                         (Moved c (current_page self') (max_pages self'))"
          have "stepped em (PyInt i) (Moved c (current_page self') (PyInt k))"
            using c cn s' by simp
          then have ok': "list_all step_ok (lg @ [?mark])"
            using ok i s' cn by simp
          have "nav_law (log (render F E valid self' last_payload (lg @ [?mark]) evs))"
            using "4.IH"(1)[OF Some True c(1) cn s'(1)] inv' ok' by simp
          then show ?thesis using Some True c cn s' by auto
        qed
      qed
    qed
  qed
qed

lemma start_nav_law: "nav_law (log (start F E self evs))"
proof -
  let ?self = "self\<lparr>current_page := PyInt 0\<rparr>"
  have r: "nav_law (log (render F E valid ?self None lg evs))"
    if "loop_inv valid ?self" "list_all step_ok lg" for valid lg
    using loop_nav_law(1)[of valid ?self lg F E None evs] that by simp
  have a: "list_all step_ok (SendMessage ''Menu loading...'' # map AddReaction valid_emojis)"
    by (simp add: valid_emojis_def)
  have inv1: "loop_inv (Some valid_emojis) ?self"
    if "py_gt (max_pages self) (PyInt 1) = Inr True"
    using that by (cases "max_pages self") (auto simp: loop_inv_def)
  have inv2: "loop_inv None ?self" by (simp add: loop_inv_def)
  show ?thesis
    using r[OF inv1 a] r[OF inv2, of "[SendMessage ''Menu loading...'']"]
    by (simp add: start_def Let_def split: option.splits sum.splits bool.splits)
qed

text \<open>
  The navigation law of sessions. In the log of any session, every reaction that passed
  the check was followed through: \<^verbatim>\<open>current_page\<close> and \<^verbatim>\<open>max_pages\<close> were integers, lines
  118-132 did not raise, the candidate is the specification's, and either it was \<^verbatim>\<open>None\<close>
  and the clearing of the reactions is all that follows, or \<^verbatim>\<open>current_page\<close> was left in
  \<^verbatim>\<open>[0, max_pages)\<close>: at \<^verbatim>\<open>max_pages - 1\<close> for a candidate at or past \<^verbatim>\<open>max_pages\<close>, at
  \<^verbatim>\<open>0\<close> for a negative candidate, at the candidate otherwise. Sessions over sequences
  reach such steps; a session over a generator does not (see below).
\<close>

lemma navigation_clamp:
  assumes "log (start F E self evs) = pre @ Navigated em i r # post"
  shows "\<exists>i' k c p. i = PyInt i' \<and> r = Moved c p (PyInt k) \<and> spec_candidate em i' k = Some c
        \<and> ((c = PyNone \<and> p = PyNone \<and> post = [ClearReactions]) \<or>
            (\<exists>c' j. c = PyInt c' \<and> p = PyInt j \<and> 0 \<le> j \<and> j < k
               \<and> j = (if k \<le> c' then k - 1 else if c' < 0 then 0 else c')))"
proof -
  have n: "nav_law (pre @ Navigated em i r # post)"
    using start_nav_law[of F E self evs] assms by simp
  have s: "stepped em i r" and t: "stops r \<Longrightarrow> post = [ClearReactions]"
    using nav_law_split[OF n] by (simp_all split: if_splits)
  obtain i' k c p where *: "i = PyInt i'" "r = Moved c p (PyInt k)"
      "spec_candidate em i' k = Some c"
      "(c = PyNone \<and> p = PyNone) \<or>
       (\<exists>c' j. c = PyInt c' \<and> p = PyInt j \<and> 0 \<le> j \<and> j < k
          \<and> j = (if k \<le> c' then k - 1 else if c' < 0 then 0 else c'))"
    using s unfolding stepped_iff by blast
  show ?thesis
  proof (cases "c = PyNone")
    case True
    then have "post = [ClearReactions]" using t * by simp
    then show ?thesis using * True by blast
  next
    case False
    then show ?thesis using * by blast
  qed
qed

text \<open>
  A session over three items in pages of two: previous-page on page 0 stays on page 0
  (the candidate -1 is clamped to 0), next-page goes to page 1, next-page again stays
  there (the candidate 2 is clamped to 1), and the stop symbol ends the session.
\<close>

lemma navigation_clamp_example:
  "log (start listing quiet_chat abc
          [Reaction LeftArrow 1 2, Reaction RightArrow 1 2, Reaction RightArrow 1 2,
           Reaction StopSquare 1 2]) =
     [SendMessage ''Menu loading...'', AddReaction Rewind, AddReaction LeftArrow,
      AddReaction StopSquare, AddReaction RightArrow, AddReaction FastForward,
      FromSource (Sliced 0 2), EditMessage [(''content'', ArgStr ''ab''), (''embed'', ArgNone)],
      Navigated LeftArrow (PyInt 0) (Moved (PyInt (- 1)) (PyInt 0) (PyInt 2)),
      EditMessage [(''content'', ArgStr ''ab''), (''embed'', ArgNone)],
      Navigated RightArrow (PyInt 0) (Moved (PyInt 1) (PyInt 1) (PyInt 2)),
      FromSource (Sliced 2 4), EditMessage [(''content'', ArgStr ''c''), (''embed'', ArgNone)],
      Navigated RightArrow (PyInt 1) (Moved (PyInt 2) (PyInt 1) (PyInt 2)),
      EditMessage [(''content'', ArgStr ''c''), (''embed'', ArgNone)],
      Navigated StopSquare (PyInt 1) (Moved PyNone PyNone (PyInt 2)),
      ClearReactions]"
  by (simp add: run_simps abc_def listing_def quiet_chat_def py_slice_def slice_bound_def)

subsection \<open>Sessions over generators\<close>

text \<open>
  A paginator that \<^verbatim>\<open>__init__\<close> makes over a generator has \<^verbatim>\<open>max_pages = '?'\<close>, and
  \<^verbatim>\<open>start\<close> compares it with 1 at line 69: the session sends the placeholder and raises,
  whatever the events. The clamp itself (line 129) raises too when \<^verbatim>\<open>max_pages\<close> is not an
  integer.
\<close>

lemma init_generated:
  assumes "data_is_generator d" and "init d pp = Inr self"
  shows "max_pages self = PyStr ''?''"
  using assms by (auto simp: init_def)

lemma generated_session:
  assumes "data_is_generator d" and "init d pp = Inr self"
  shows "log (start F E self evs) = [SendMessage ''Menu loading...'']
     \<and> outcome (start F E self evs) =
         (case sink E [] (SendMessage ''Menu loading...'') of
            Some e \<Rightarrow> Inl e | None \<Rightarrow> Inl TypeError)"
  using init_generated[OF assms]
  by (simp add: start_def Let_def split: option.splits)

lemma clamp_unknown:
  "max_pages self = PyStr q \<Longrightarrow> \<exists>e. clamp self = Inl e"
  by (cases "current_page self") (auto simp: clamp_def split: bool.splits)


text \<open>
  Claim C4. The code at a session over three items in pages of two where the user
  asks for the first page while on it: the same payload is rendered twice and the
  message is edited twice.
\<close>

theorem same_page_edited_twice:
  "log (start listing quiet_chat abc [Reaction Rewind 1 2]) =
     [SendMessage ''Menu loading...'', AddReaction Rewind, AddReaction LeftArrow,
      AddReaction StopSquare, AddReaction RightArrow, AddReaction FastForward,
      FromSource (Sliced 0 2),
      EditMessage [(''content'', ArgStr ''ab''), (''embed'', ArgNone)],
      Navigated Rewind (PyInt 0) (Moved (PyInt 0) (PyInt 0) (PyInt 2)),
      EditMessage [(''content'', ArgStr ''ab''), (''embed'', ArgNone)],
      ClearReactions]"
  by (simp add: run_simps abc_def listing_def quiet_chat_def py_slice_def slice_bound_def)

text \<open>
  The clearing of the reactions: a failure is dropped when \<^verbatim>\<open>discord.Exception\<close> is
  a class of the failure, and becomes an \<^verbatim>\<open>AttributeError\<close> when the module has no such
  attribute.
\<close>

lemma cleanup_failure_caught:
  "sink E lg ClearReactions = Some e \<Longrightarrow> discord_Exception E = Some c \<Longrightarrow> isinstance e [c] \<Longrightarrow>
   outcome (clear_up E self lg) = Inr ()"
  by (simp add: clear_up_def)

lemma cleanup_failure_raises:
  "sink E lg ClearReactions = Some e \<Longrightarrow> discord_Exception E = None \<Longrightarrow>
   outcome (clear_up E self lg) = Inl AttributeError"
  by (simp add: clear_up_def)

text \<open>
  Claim C7. The code at a session that times out where clearing the reactions is
  forbidden: \<^verbatim>\<open>start\<close> raises \<^verbatim>\<open>AttributeError\<close>.
\<close>

theorem cleanup_failure_propagates:
  "outcome (start listing locked_chat abc [Timeout]) = Inl AttributeError
   \<and> log (start listing locked_chat abc [Timeout]) =
     [SendMessage ''Menu loading...'', AddReaction Rewind, AddReaction LeftArrow,
      AddReaction StopSquare, AddReaction RightArrow, AddReaction FastForward,
      FromSource (Sliced 0 2),
      EditMessage [(''content'', ArgStr ''ab''), (''embed'', ArgNone)],
      ClearReactions]"
  by (simp add: run_simps abc_def listing_def locked_chat_def py_slice_def slice_bound_def)

text \<open>
  Claim C8. A paginator made over the empty sequence has \<^verbatim>\<open>max_pages = 0\<close>, and a
  session on it tries one thing on the chat, sending the notice that there is no data:
  no placeholder, no reactions, no page fetched, no edit, no wait. It sets
  \<^verbatim>\<open>current_page\<close> to 0 and ends, normally unless sending the notice failed.
\<close>

theorem empty_sequence_session:
  assumes "init (Sequential []) P = Inr self"
  shows "max_pages self = PyInt 0
     \<and> log (start F E self evs) = [SendMessage ''There's no data to be shown.'']
     \<and> final (start F E self evs) = self\<lparr>current_page := PyInt 0\<rparr>
     \<and> outcome (start F E self evs) =
          (case sink E [] (SendMessage ''There's no data to be shown.'') of
             None \<Rightarrow> Inr () | Some e \<Rightarrow> Inl e)"
proof -
  have "max_pages self = PyInt 0"
    using assms by (auto simp: init_def data_is_generator_def py_divmod_def split: if_splits)
  then show ?thesis by (simp add: start_def Let_def split: option.splits)
qed

theorem empty_sequence_session_witness:
  "init (Sequential []) 10 = Inr nothing
   \<and> max_pages nothing = PyInt 0
   \<and> log (start listing quiet_chat nothing [Reaction RightArrow 1 2]) =
        [SendMessage ''There's no data to be shown.'']
   \<and> outcome (start listing quiet_chat nothing [Reaction RightArrow 1 2]) = Inr ()"
proof -
  have h: "init (Sequential []) 10 = Inr nothing"
    by (simp add: init_def nothing_def data_is_generator_def py_divmod_def)
  show ?thesis
    using empty_sequence_session[OF h, of listing quiet_chat "[Reaction RightArrow 1 2]"] h
    by (simp add: quiet_chat_def)
qed

section \<open>The error handler\<close>

lemma first_match_wins:
  assumes "\<forall>(tys, f) \<in> set before. \<not> isinstance (LibError (classes error)) tys"
    and "isinstance (LibError (classes error)) error_types"
  shows "lookup_response (before @ (error_types, function) # rest) ctx error = function ctx error"
  using assms by (induction before) auto

lemma lookup_not_found: "lookup_response COMMAND_ERROR_RESPONSES some_ctx' not_found = Inr ONone"
  by (simp add: COMMAND_ERROR_RESPONSES_def not_found_def)

text \<open>
  Claim C6. The code at \<^verbatim>\<open>discord.NotFound\<close>, whose formatter is the first match and
  returns \<^verbatim>\<open>None\<close>: the raw error is sent to the channel, the owner and the webhook
  get the report, and the error is raised again.
\<close>

theorem not_found_not_suppressed:
  "lookup_response COMMAND_ERROR_RESPONSES
       (some_ctx\<lparr>original_author_id := Some 5\<rparr>) not_found = Inr ONone
   \<and> on_command_error some_bot some_ctx not_found =
     \<lparr>raised = Some (LibError [NotFound, HTTPException, DiscordException]),
      ctx_after = some_ctx\<lparr>original_author_id := Some 5\<rparr>,
      effects = [SendMessage (''```py'' @ [CHR 0x0A] @ ''404 Not Found```''),
                 OwnerDM 7 (Report ''404 Not Found'' 10 11 5 ''!ping''),
                 WebhookSend (Report ''404 Not Found'' 10 11 5 ''!ping'') ''Bot - Error'']\<rparr>"
proof -
  have l: "lookup_response COMMAND_ERROR_RESPONSES
       (some_ctx\<lparr>original_author_id := Some 5\<rparr>) not_found = Inr ONone"
    by (rule lookup_not_found)
  have i: "\<not> isinstance (LibError (classes not_found)) ignored_errors"
    by (simp add: not_found_def ignored_errors_def)
  have o: "\<not> isinstance (LibError (classes not_found)) owner_reinvoke_errors"
    by (simp add: not_found_def owner_reinvoke_errors_def)
  have c: "(case original_author_id some_ctx of None \<Rightarrow> ctx_author_id some_ctx | Some a \<Rightarrow> a) = 5"
    by (simp add: some_ctx_def)
  have e: "escalate some_bot (some_ctx\<lparr>original_author_id := Some 5\<rparr>) not_found
             [SendMessage (raw_text not_found)] =
           (Some (LibError [NotFound, HTTPException, DiscordException]),
            [SendMessage (raw_text not_found),
             OwnerDM 7 (Report ''404 Not Found'' 10 11 5 ''!ping''),
             WebhookSend (Report ''404 Not Found'' 10 11 5 ''!ping'') ''Bot - Error''])"
    by (simp add: escalate_def some_bot_def some_ctx_def not_found_def Let_def)
  have r: "raw_text not_found = ''```py'' @ [CHR 0x0A] @ ''404 Not Found```''"
    by (simp add: raw_text_def not_found_def)
  have s: "chat_sink some_bot [] (SendMessage (raw_text not_found)) = None"
    by (simp add: some_bot_def)
  have "on_command_error some_bot some_ctx not_found =
     \<lparr>raised = Some (LibError [NotFound, HTTPException, DiscordException]),
      ctx_after = some_ctx\<lparr>original_author_id := Some 5\<rparr>,
      effects = [SendMessage (raw_text not_found),
                 OwnerDM 7 (Report ''404 Not Found'' 10 11 5 ''!ping''),
                 WebhookSend (Report ''404 Not Found'' 10 11 5 ''!ping'') ''Bot - Error'']\<rparr>"
    unfolding on_command_error_def Let_def using i o by (simp add: c l e s)
  then show ?thesis using l r by simp
qed

text \<open>
  Claim C10. For an error that is a \<^verbatim>\<open>CommandNotFound\<close> or an \<^verbatim>\<open>InvokedMetaCommand\<close>
  the handler returns at once: nothing is raised, the context is as it was
  (\<^verbatim>\<open>original_author_id\<close> included) and nothing is sent, reinvoked or escalated.
\<close>

theorem ignored_errors_return:
  assumes "CommandNotFound \<in> set (classes error) \<or> InvokedMetaCommand \<in> set (classes error)"
  shows "on_command_error B ctx error = \<lparr>raised = None, ctx_after = ctx, effects = []\<rparr>"
proof -
  have "isinstance (LibError (classes error)) ignored_errors"
    using assms by (auto simp: ignored_errors_def list_ex_iff)
  then show ?thesis by (simp add: on_command_error_def)
qed

theorem ignored_errors_return_witness:
  "(CommandNotFound \<in> set (classes unknown_command)
      \<or> InvokedMetaCommand \<in> set (classes unknown_command))
   \<and> on_command_error some_bot some_ctx unknown_command =
       \<lparr>raised = None, ctx_after = some_ctx, effects = []\<rparr>"
proof -
  have h: "CommandNotFound \<in> set (classes unknown_command)
      \<or> InvokedMetaCommand \<in> set (classes unknown_command)"
    by (simp add: unknown_command_def)
  show ?thesis using ignored_errors_return[OF h, of some_bot some_ctx] h by simp
qed

end
